theory Spec2Isabelle
  imports Main "HOL-Library.Word"
begin

section \<open>JavaScript strings\<close>

text \<open>
  A JavaScript string is a sequence of UTF-16 code units. Indexing (\<open>s[0]\<close>),
  \<open>length\<close> and \<open>trim\<close> all work on code units, so a string is modelled as a
  list of 16-bit words. \<open>str\<close> embeds an ASCII literal.
\<close>

type_synonym jschar = "16 word"
type_synonym jsstring = "jschar list"

definition str :: "string \<Rightarrow> jsstring" where
  "str s = map of_char s"

text \<open>
  \<open>String.prototype.trim\<close> strips the code units that ECMAScript calls WhiteSpace
  or LineTerminator from both ends.
\<close>

definition isWhiteSpace :: "jschar \<Rightarrow> bool" where
  "isWhiteSpace c \<longleftrightarrow>
     c \<in> {0x0009, 0x000A, 0x000B, 0x000C, 0x000D, 0x0020, 0x00A0, 0x1680,
          0x2000, 0x2001, 0x2002, 0x2003, 0x2004, 0x2005, 0x2006, 0x2007,
          0x2008, 0x2009, 0x200A, 0x2028, 0x2029, 0x202F, 0x205F, 0x3000, 0xFEFF}"

definition trim :: "jsstring \<Rightarrow> jsstring" where
  "trim s = rev (dropWhile isWhiteSpace (rev (dropWhile isWhiteSpace s)))"

text \<open>
  \<open>String.prototype.toLowerCase\<close> follows the Unicode case mapping. The mutation
  service takes it as a parameter \<open>lower\<close>, so the general theorems hold for the
  full mapping; \<open>toLowerCase\<close> below is that mapping on Basic Latin and the Latin-1
  Supplement (where it is one code unit to one code unit, and folds no accent), and
  is used for the concrete inputs.
\<close>

definition toLowerCase :: "jsstring \<Rightarrow> jsstring" where
  "toLowerCase s =
     map (\<lambda>c. if (0x41 \<le> c \<and> c \<le> 0x5A) \<or> (0xC0 \<le> c \<and> c \<le> 0xDE \<and> c \<noteq> 0xD7)
              then c + 0x20 else c) s"

text \<open>
  \<open>x || null\<close> on an optional string: \<open>undefined\<close>, \<open>null\<close> and the empty string
  are falsy and become \<open>null\<close>; any other string is kept. \<open>None\<close> stands for both
  \<open>undefined\<close> and \<open>null\<close>.
\<close>

definition falsy :: "jsstring option \<Rightarrow> bool" where
  "falsy x \<longleftrightarrow> (case x of None \<Rightarrow> True | Some s \<Rightarrow> s = [])"

definition orNull :: "jsstring option \<Rightarrow> jsstring option" where
  "orNull x = (if falsy x then None else x)"

text \<open>\<open>s[0]\<close>: the first code unit as a one-unit string, \<open>undefined\<close> on the empty string.\<close>

definition charAt0 :: "jsstring \<Rightarrow> jsstring option" where
  "charAt0 s = (case s of [] \<Rightarrow> None | c # _ \<Rightarrow> Some [c])"


section \<open>Input types of the mutation service\<close>

text \<open>
  The types \<open>Word\<close>, \<open>Example\<close>, \<open>MeaningMarkerKey\<close> and the constant
  \<open>MEANING_MARKER_KEYS\<close> are imported by \<open>lib/editor-mutations.ts\<close> from
  \<open>lib/definitions\<close>. Their fields are the ones the mutation code reads and the
  columns \<open>lib/schema.ts\<close> declares. An optional field is an \<open>option\<close>.
\<close>

datatype MeaningMarkerKey =
    socialValuations | socialStratumMarkers | styleMarkers | intentionalityMarkers
  | geographicalMarkers | chronologicalMarkers | frequencyMarkers

text \<open>
  Modelled from the spec: \<open>MEANING_MARKER_KEYS\<close> of \<open>lib/definitions\<close>, the seven
  independent usage-marker fields of a meaning (social valuation, social stratum,
  style, intentionality, geography, chronology, frequency), under the property names
  of the \<open>meanings\<close> table.
\<close>

definition MEANING_MARKER_KEYS :: "MeaningMarkerKey list" where
  "MEANING_MARKER_KEYS =
     [socialValuations, socialStratumMarkers, styleMarkers, intentionalityMarkers,
      geographicalMarkers, chronologicalMarkers, frequencyMarkers]"

text \<open>
  The object \<open>cleanExample\<close> returns, which is also the data part of a row of the
  \<open>examples\<close> table. An \<open>Example\<close> as submitted has the legacy \<open>source\<close> field on
  top of it.
\<close>

record Example_cols =
  ex_value :: jsstring
  ex_author :: "jsstring option"
  ex_year :: "jsstring option"
  ex_publication :: "jsstring option"
  ex_format :: "jsstring option"
  ex_title :: "jsstring option"
  ex_date :: "jsstring option"
  ex_city :: "jsstring option"
  ex_editorial :: "jsstring option"
  ex_volume :: "jsstring option"
  ex_number :: "jsstring option"
  ex_page :: "jsstring option"
  ex_doi :: "jsstring option"
  ex_url :: "jsstring option"

record Example = Example_cols +
  ex_source :: "jsstring option"

text \<open>
  The values \<open>insertMeaning\<close> writes to the \<open>meanings\<close> table, in the order of its
  \<open>values\<close> object; \<open>markers\<close> is the \<open>Record<MeaningMarkerKey, string | null>\<close>
  spread into it. A submitted meaning (\<open>Word['values'][number]\<close>) has the same
  fields and its examples.
\<close>

record Meaning_cols =
  number :: int
  origin :: "jsstring option"
  meaning :: jsstring
  observation :: "jsstring option"
  remission :: "jsstring option"
  grammarCategory :: "jsstring option"
  dictionary :: "jsstring option"
  variant :: "jsstring option"
  markers :: "MeaningMarkerKey \<Rightarrow> jsstring option"

record Meaning = Meaning_cols +
  examples :: "Example list option"

record Word =
  word_lemma :: jsstring
  word_root :: "jsstring option"
  word_values :: "Meaning list"

text \<open>
  \<open>CreateWordOptions\<close>. \<open>createdBy\<close> and \<open>assignedTo\<close> are only read through
  \<open>?? null\<close>, which does not tell \<open>undefined\<close> from \<open>null\<close>.
\<close>

record CreateWordOptions =
  opt_createdBy :: "nat option"
  opt_assignedTo :: "nat option"
  opt_letter :: "jsstring option"
  opt_status :: "jsstring option"

text \<open>
  The options of \<open>updateWordByLemma\<close>. The code tests \<open>assignedTo !== undefined\<close>, so
  \<open>undefined\<close> (\<open>None\<close>) and \<open>null\<close> (\<open>Some None\<close>) differ here.
\<close>

record UpdateOptions =
  upd_status :: "jsstring option"
  upd_assignedTo :: "nat option option"

section \<open>Storage\<close>

text \<open>
  The tables of \<open>lib/schema.ts\<close> that the mutation code writes, each a list of rows
  in insertion order, and the sequences behind their \<open>serial\<close> keys. References
  from \<open>words\<close> to \<open>users\<close> are stored as plain numbers.
\<close>

record words_row =
  w_id :: nat
  w_lemma :: jsstring
  w_root :: "jsstring option"
  w_letter :: jsstring
  w_variant :: "jsstring option"
  w_status :: jsstring
  w_createdBy :: "nat option"
  w_assignedTo :: "nat option"
  w_createdAt :: nat
  w_updatedAt :: nat

record meanings_row =
  m_id :: nat
  m_wordId :: nat
  m_cols :: Meaning_cols
  m_createdAt :: nat
  m_updatedAt :: nat

record examples_row =
  e_id :: nat
  e_meaningId :: nat
  e_cols :: Example_cols
  e_createdAt :: nat
  e_updatedAt :: nat

record db =
  words_tbl :: "words_row list"
  meanings_tbl :: "meanings_row list"
  examples_tbl :: "examples_row list"
  words_id_seq :: nat
  meanings_id_seq :: nat
  examples_id_seq :: nat

text \<open>
  What the mutation functions throw: \<open>new Error(message)\<close>, or the rejection of a
  statement by the database.
\<close>

datatype error = Error jsstring | DatabaseError

text \<open>
  A statement is rejected when a value does not fit its column: \<open>meanings.number\<close>
  is a 32-bit \<open>integer\<close>, while a submitted \<open>number\<close> is any integral JavaScript
  number. A rejected statement changes nothing.
\<close>

definition int4 :: "int \<Rightarrow> bool" where
  "int4 n \<longleftrightarrow> - 2147483648 \<le> n \<and> n \<le> 2147483647"

text \<open>\<open>db.query.words.findFirst({ where: eq(words.lemma, lemma) })\<close>\<close>

definition findFirst_words :: "db \<Rightarrow> jsstring \<Rightarrow> words_row option" where
  "findFirst_words d l = find (\<lambda>r. w_lemma r = l) (words_tbl d)"

text \<open>
  \<open>db.insert(words).values({...}).returning()\<close>. \<open>status\<close> is optional in the
  insert type: the column default is \<open>'draft'\<close>. The timestamps default to now.
\<close>

definition insert_words ::
  "nat \<Rightarrow> db \<Rightarrow> jsstring \<Rightarrow> jsstring option \<Rightarrow> jsstring \<Rightarrow> jsstring option \<Rightarrow>
   nat option \<Rightarrow> nat option \<Rightarrow> words_row \<times> db" where
  "insert_words now d l r letter st createdBy assignedTo =
     (let wordRecord =
        \<lparr>w_id = words_id_seq d, w_lemma = l, w_root = r, w_letter = letter,
         w_variant = None,
         w_status = (case st of None \<Rightarrow> str ''draft'' | Some s \<Rightarrow> s),
         w_createdBy = createdBy, w_assignedTo = assignedTo,
         w_createdAt = now, w_updatedAt = now\<rparr>
      in (wordRecord,
          d\<lparr>words_tbl := words_tbl d @ [wordRecord],
            words_id_seq := Suc (words_id_seq d)\<rparr>))"

text \<open>\<open>db.insert(meanings).values({ wordId, ... }).returning({ id: meanings.id })\<close>\<close>

definition insert_meanings ::
  "nat \<Rightarrow> db \<Rightarrow> nat \<Rightarrow> Meaning_cols \<Rightarrow> error + nat \<times> db" where
  "insert_meanings now d wordId cols =
     (if int4 (number cols)
      then Inr (meanings_id_seq d,
                d\<lparr>meanings_tbl := meanings_tbl d @
                     [\<lparr>m_id = meanings_id_seq d, m_wordId = wordId, m_cols = cols,
                       m_createdAt = now, m_updatedAt = now\<rparr>],
                  meanings_id_seq := Suc (meanings_id_seq d)\<rparr>)
      else Inl DatabaseError)"

text \<open>\<open>db.insert(examples).values([{ meaningId, ...ex }, ...])\<close>, one row after the other.\<close>

fun insert_examples :: "nat \<Rightarrow> db \<Rightarrow> nat \<Rightarrow> Example_cols list \<Rightarrow> db" where
  "insert_examples now d meaningId [] = d"
| "insert_examples now d meaningId (ex # exs) =
     insert_examples now
       (d\<lparr>examples_tbl := examples_tbl d @
            [\<lparr>e_id = examples_id_seq d, e_meaningId = meaningId, e_cols = ex,
              e_createdAt = now, e_updatedAt = now\<rparr>],
          examples_id_seq := Suc (examples_id_seq d)\<rparr>)
       meaningId exs"

text \<open>
  \<open>db.delete(meanings).where(eq(meanings.wordId, id))\<close>. \<open>examples.meaning_id\<close> is
  declared \<open>onDelete: 'cascade'\<close>, so the examples of the deleted meanings go too.
\<close>

definition delete_meanings :: "db \<Rightarrow> nat \<Rightarrow> db" where
  "delete_meanings d wordId =
     (let gone = map m_id (filter (\<lambda>m. m_wordId m = wordId) (meanings_tbl d))
      in d\<lparr>meanings_tbl := filter (\<lambda>m. m_wordId m \<noteq> wordId) (meanings_tbl d),
           examples_tbl := filter (\<lambda>e. e_meaningId e \<notin> set gone) (examples_tbl d)\<rparr>)"

text \<open>\<open>db.update(words).set(updateData).where(eq(words.id, id))\<close>\<close>

definition update_words :: "db \<Rightarrow> nat \<Rightarrow> (words_row \<Rightarrow> words_row) \<Rightarrow> db" where
  "update_words d wordId updateData =
     d\<lparr>words_tbl := map (\<lambda>r. if w_id r = wordId then updateData r else r) (words_tbl d)\<rparr>"


section \<open>The mutation service (lib/editor-mutations.ts)\<close>

definition cleanExample :: "Example \<Rightarrow> Example_cols" where
  "cleanExample ex =
     \<lparr>ex_value = ex_value ex,
      ex_author = orNull (ex_author ex),
      ex_year = orNull (ex_year ex),
      ex_publication =
        (if falsy (ex_publication ex) then orNull (ex_source ex) else ex_publication ex),
      ex_format = orNull (ex_format ex),
      ex_title = orNull (ex_title ex),
      ex_date = orNull (ex_date ex),
      ex_city = orNull (ex_city ex),
      ex_editorial = orNull (ex_editorial ex),
      ex_volume = orNull (ex_volume ex),
      ex_number = orNull (ex_number ex),
      ex_page = orNull (ex_page ex),
      ex_doi = orNull (ex_doi ex),
      ex_url = orNull (ex_url ex)\<rparr>"

definition normalizeAndCleanExamples :: "Example list option \<Rightarrow> Example_cols list" where
  "normalizeAndCleanExamples exs =
     (case exs of
        None \<Rightarrow> []
      | Some xs \<Rightarrow> if length xs = 0 then [] else map cleanExample xs)"

text \<open>
  The \<open>reduce\<close> over \<open>MEANING_MARKER_KEYS\<close> in \<open>insertMeaning\<close>: starting from the
  empty object, \<open>acc[key] = def[key] || null\<close> for each key.
\<close>

definition markerValues :: "Meaning \<Rightarrow> MeaningMarkerKey \<Rightarrow> jsstring option" where
  "markerValues def =
     foldl (\<lambda>acc key. acc(key := orNull (markers def key))) (\<lambda>_. None) MEANING_MARKER_KEYS"

text \<open>The object \<open>insertMeaning\<close> passes to \<open>db.insert(meanings).values\<close>, without \<open>wordId\<close>.\<close>

definition meaningValues :: "Meaning \<Rightarrow> Meaning_cols" where
  "meaningValues def =
     \<lparr>number = number def,
      origin = orNull (origin def),
      meaning = meaning def,
      observation = orNull (observation def),
      remission = orNull (remission def),
      grammarCategory = orNull (grammarCategory def),
      dictionary = orNull (dictionary def),
      variant = orNull (variant def),
      markers = markerValues def\<rparr>"

text \<open>
  The mutation functions do not run in a transaction, so each returns the storage as
  it stands when the function returns or throws, next to the outcome.
\<close>

definition insertMeaning :: "nat \<Rightarrow> db \<Rightarrow> nat \<Rightarrow> Meaning \<Rightarrow> (error + unit) \<times> db" where
  "insertMeaning now d wordId def =
     (let cleanedExamples = normalizeAndCleanExamples (examples def)
      in case insert_meanings now d wordId (meaningValues def) of
           Inl e \<Rightarrow> (Inl e, d)
         | Inr (insertedMeaning, d1) \<Rightarrow>
             if length cleanedExamples > 0
             then (Inr (), insert_examples now d1 insertedMeaning cleanedExamples)
             else (Inr (), d1))"

text \<open>\<open>for (const def of values) { await insertMeaning(wordId, def); }\<close>\<close>

fun insertMeanings :: "nat \<Rightarrow> db \<Rightarrow> nat \<Rightarrow> Meaning list \<Rightarrow> (error + unit) \<times> db" where
  "insertMeanings now d wordId [] = (Inr (), d)"
| "insertMeanings now d wordId (def # defs) =
     (case insertMeaning now d wordId def of
        (Inl e, d1) \<Rightarrow> (Inl e, d1)
      | (Inr _, d1) \<Rightarrow> insertMeanings now d1 wordId defs)"

text \<open>
  \<open>updateData\<close> of \<open>updateWordByLemma\<close>, as the change it makes to the row:
  \<open>lemma\<close>, \<open>root\<close> and \<open>updatedAt\<close> always, \<open>status\<close> and \<open>assignedTo\<close> when the
  option is not \<open>undefined\<close>. \<open>options\<close> itself may be missing (\<open>options?.status\<close>).
\<close>

definition updateData ::
  "nat \<Rightarrow> Word \<Rightarrow> UpdateOptions option \<Rightarrow> words_row \<Rightarrow> words_row" where
  "updateData now updatedWord options r =
     (let r1 = r\<lparr>w_lemma := word_lemma updatedWord,
                 w_root := orNull (word_root updatedWord),
                 w_updatedAt := now\<rparr>;
          r2 = (case Option.bind options upd_status of
                  None \<Rightarrow> r1 | Some s \<Rightarrow> r1\<lparr>w_status := s\<rparr>)
      in case Option.bind options upd_assignedTo of
           None \<Rightarrow> r2 | Some a \<Rightarrow> r2\<lparr>w_assignedTo := a\<rparr>)"

text \<open>\<open>return { success: true }\<close> is \<open>Inr ()\<close>.\<close>

definition updateWordByLemma ::
  "nat \<Rightarrow> db \<Rightarrow> jsstring \<Rightarrow> Word \<Rightarrow> UpdateOptions option \<Rightarrow> (error + unit) \<times> db" where
  "updateWordByLemma now d prevLemma updatedWord options =
     (case findFirst_words d prevLemma of
        None \<Rightarrow> (Inl (Error (str ''Word not found: '' @ prevLemma)), d)
      | Some existingWord \<Rightarrow>
          (let d1 = update_words d (w_id existingWord) (updateData now updatedWord options);
               d2 = delete_meanings d1 (w_id existingWord)
           in insertMeanings now d2 (w_id existingWord) (word_values updatedWord)))"

record CreateWordResult =
  r_wordId :: nat
  r_lemma :: jsstring
  r_letter :: jsstring

text \<open>
  \<open>createWord\<close>. \<open>lower\<close> is \<open>String.prototype.toLowerCase\<close>. The result
  \<open>{ success: true, wordId, lemma, letter }\<close> is \<open>Inr\<close> of the three values.
\<close>

definition normalizedLetter ::
  "(jsstring \<Rightarrow> jsstring) \<Rightarrow> jsstring \<Rightarrow> jsstring option \<Rightarrow> jsstring" where
  "normalizedLetter lower normalizedLemma letter =
     (let requestedLetter = map_option trim letter
      in lower (case Option.bind requestedLetter charAt0 of
                  Some c \<Rightarrow> c
                | None \<Rightarrow> (case charAt0 normalizedLemma of
                              Some c \<Rightarrow> c
                            | None \<Rightarrow> str ''a'')))"

definition createWord ::
  "(jsstring \<Rightarrow> jsstring) \<Rightarrow> nat \<Rightarrow> db \<Rightarrow> Word \<Rightarrow> CreateWordOptions \<Rightarrow>
   (error + CreateWordResult) \<times> db" where
  "createWord lower now d newWord options =
     (let normalizedLemma = trim (word_lemma newWord)
      in if normalizedLemma = [] then (Inl (Error (str ''El lema es obligatorio'')), d)
         else
           let normalizedRoot = trim (case orNull (word_root newWord) of
                                        None \<Rightarrow> [] | Some r \<Rightarrow> r);
               letter = normalizedLetter lower normalizedLemma (opt_letter options);
               assignedTo = opt_assignedTo options;
               createdBy = opt_createdBy options;
               status = (case opt_status options of None \<Rightarrow> str ''included'' | Some s \<Rightarrow> s)
           in case findFirst_words d normalizedLemma of
                Some existing \<Rightarrow>
                  (Inl (Error (str ''Ya existe una palabra con el lema '' @ [0x22]
                               @ normalizedLemma @ [0x22])), d)
              | None \<Rightarrow>
                  (case insert_words now d normalizedLemma (orNull (Some normalizedRoot))
                          letter (Some status) createdBy assignedTo of
                     (wordRecord, d1) \<Rightarrow>
                       (case insertMeanings now d1 (w_id wordRecord) (word_values newWord) of
                          (Inl e, d2) \<Rightarrow> (Inl e, d2)
                        | (Inr _, d2) \<Rightarrow>
                            (Inr \<lparr>r_wordId = w_id wordRecord, r_lemma = normalizedLemma,
                                  r_letter = letter\<rparr>, d2))))"

section \<open>Reading a word's meanings back\<close>

text \<open>
  The relations of \<open>lib/schema.ts\<close>: a word has the meanings whose \<open>wordId\<close> is its
  id, a meaning has the examples whose \<open>meaningId\<close> is its id. \<open>meaningsOf\<close> is the
  stored content of a word: its meanings in table order, each with its examples.
\<close>

definition examplesOf :: "db \<Rightarrow> nat \<Rightarrow> Example_cols list" where
  "examplesOf d meaningId =
     map e_cols (filter (\<lambda>e. e_meaningId e = meaningId) (examples_tbl d))"

definition meaningsOf :: "db \<Rightarrow> nat \<Rightarrow> (Meaning_cols \<times> Example_cols list) list" where
  "meaningsOf d wordId =
     map (\<lambda>m. (m_cols m, examplesOf d (m_id m)))
         (filter (\<lambda>m. m_wordId m = wordId) (meanings_tbl d))"



text \<open>
  The sequence behind \<open>meanings.id\<close> is ahead of every id in use: the ids of the
  stored meanings and the meaning ids the stored examples refer to. The database
  keeps this, since ids come from the sequence and an example refers to a meaning.
\<close>

definition wf_db :: "db \<Rightarrow> bool" where
  "wf_db d \<longleftrightarrow>
     list_all (\<lambda>m. m_id m < meanings_id_seq d) (meanings_tbl d) \<and>
     list_all (\<lambda>e. e_meaningId e < meanings_id_seq d) (examples_tbl d)"

definition empty_db :: db where
  "empty_db = \<lparr>words_tbl = [], meanings_tbl = [], examples_tbl = [],
                words_id_seq = 1, meanings_id_seq = 1, examples_id_seq = 1\<rparr>"

section \<open>The search page (components/search/search-page)\<close>

text \<open>
  The module \<open>components/search/search-page\<close> is the second module held by the file
  \<open>src/components/search/add-word-modal.tsx\<close>.

  \<open>LocalSearchFilters\<close> (\<open>lib/search-utils\<close>) and \<open>SearchState\<close>
  (\<open>hooks/useSearchState\<close>), with the fields the page reads: four filter categories
  and one array per marker key; the canonical state \<open>{query, filters, status,
  assignedTo}\<close>.
\<close>

record LocalSearchFilters =
  categories :: "jsstring list"
  origins :: "jsstring list"
  letters :: "jsstring list"
  dictionaries :: "jsstring list"
  markerFilters :: "MeaningMarkerKey \<Rightarrow> jsstring list"

record SearchState =
  query :: jsstring
  filters :: LocalSearchFilters
  status :: jsstring
  assignedTo :: "jsstring list"

text \<open>
  Modelled from the spec: \<open>filtersChanged\<close>, defined in \<open>lib/search-utils\<close>, whose
  source is not available. The spec has the equality of filters structural per
  filter category, not by reference: the filters changed when some category holds a
  different array of values.
\<close>

definition filtersChanged :: "LocalSearchFilters \<Rightarrow> LocalSearchFilters \<Rightarrow> bool" where
  "filtersChanged a b \<longleftrightarrow>
     categories a \<noteq> categories b \<or> origins a \<noteq> origins b \<or>
     letters a \<noteq> letters b \<or> dictionaries a \<noteq> dictionaries b \<or>
     list_ex (\<lambda>key. markerFilters a key \<noteq> markerFilters b key) MEANING_MARKER_KEYS"

text \<open>
  Modelled from the spec: \<open>cloneFilters\<close>, defined in \<open>lib/search-utils\<close>, whose
  source is not available: a new filters object with a copy of each category.
\<close>

definition cloneFilters :: "LocalSearchFilters \<Rightarrow> LocalSearchFilters" where
  "cloneFilters f =
     \<lparr>categories = categories f, origins = origins f, letters = letters f,
      dictionaries = dictionaries f, markerFilters = (\<lambda>key. markerFilters f key)\<rparr>"

definition stateHasCriteria :: "SearchState \<Rightarrow> bool \<Rightarrow> bool" where
  "stateHasCriteria state includeEditorFilters \<longleftrightarrow>
     length (query state) > 0 \<or>
     length (categories (filters state)) > 0 \<or>
     length (origins (filters state)) > 0 \<or>
     length (letters (filters state)) > 0 \<or>
     length (dictionaries (filters state)) > 0 \<or>
     list_ex (\<lambda>key. length (markerFilters (filters state) key) > 0) MEANING_MARKER_KEYS \<or>
     (includeEditorFilters \<and> (length (status state) > 0 \<or> length (assignedTo state) > 0))"

text \<open>
  A state updater either returns the object it was given (\<open>return prev\<close>), which
  React takes as "nothing changed", or a new object. HOL has no object identity, so
  the two are told apart in the result.
\<close>

datatype 'a updated = Prev | Next 'a

definition resolve :: "'a \<Rightarrow> 'a updated \<Rightarrow> 'a" where
  "resolve prev u = (case u of Prev \<Rightarrow> prev | Next s \<Rightarrow> s)"

definition updateStateIfChanged ::
  "SearchState \<Rightarrow> jsstring \<Rightarrow> LocalSearchFilters \<Rightarrow> SearchState updated" where
  "updateStateIfChanged prev query' filters' =
     (let hasFiltersChanged = filtersChanged (filters prev) filters';
          queryChanged = (query prev \<noteq> query')
      in if \<not> hasFiltersChanged \<and> \<not> queryChanged then Prev
         else Next (prev\<lparr>query := query',
                         filters := (if hasFiltersChanged then cloneFilters filters'
                                     else filters prev)\<rparr>))"

text \<open>The updater that \<open>handleSearchStateChange\<close> hands to \<open>updateState\<close>.\<close>

definition handleSearchStateChange ::
  "bool \<Rightarrow> jsstring \<Rightarrow> LocalSearchFilters \<Rightarrow> SearchState \<Rightarrow> SearchState updated" where
  "handleSearchStateChange editorMode query' filters' prev =
     (if editorMode
      then (let hasFiltersChanged = filtersChanged (filters prev) filters'
            in if \<not> hasFiltersChanged then Prev
               else Next (prev\<lparr>filters := cloneFilters filters'\<rparr>))
      else updateStateIfChanged prev query' filters')"

record Pagination =
  totalPages :: nat
  hasNext :: bool
  hasPrev :: bool

text \<open>
  What \<open>searchDictionary\<close> resolves to: \<open>{results, pagination: {total, totalPages,
  hasNext, hasPrev}}\<close>. The type of a result is left open.
\<close>

record ResponsePagination = Pagination +
  total' :: nat

record 'r SearchData =
  results :: "'r list"
  resp_pagination :: ResponsePagination

text \<open>
  The state of the page component: the search state and the saved filters that the
  hook \<open>useSearchState\<close> owns (\<open>updateState\<close> applies an updater to the first,
  \<open>saveFilters\<close> replaces the second), the request counter \<open>latestRequestRef\<close>, and
  the \<open>useState\<close> cells that are displayed.
\<close>

record 'r SearchPage =
  searchState :: SearchState
  savedFilters :: "SearchState option"
  latestRequestRef :: nat
  searchResults :: "'r list"
  isLoading :: bool
  hasSearched :: bool
  totalResults :: nat
  currentPage :: nat
  lastExecutedQuery :: jsstring
  pagination :: Pagination

definition initialPage :: "SearchState \<Rightarrow> bool \<Rightarrow> 'r SearchPage" where
  "initialPage state editorMode =
     \<lparr>searchState = state, savedFilters = None, latestRequestRef = 0,
      searchResults = [], isLoading = stateHasCriteria state editorMode,
      hasSearched = False, totalResults = 0, currentPage = 1,
      lastExecutedQuery = [],
      pagination = \<lparr>totalPages = 0, hasNext = False, hasPrev = False\<rparr>\<rparr>"

text \<open>
  \<open>executeSearch\<close> is an async function: it runs up to \<open>await searchDictionary(...)\<close>
  when it is called, and from there on when the response arrives. Other calls and
  other responses can come in between. The variables it keeps across the \<open>await\<close>
  are a \<open>Request\<close>.
\<close>

record Request =
  requestId :: nat
  req_query :: jsstring
  req_page :: nat
  nextStateSnapshot :: "SearchState option"

definition executeSearch_call ::
  "jsstring \<Rightarrow> LocalSearchFilters \<Rightarrow> nat \<Rightarrow> 'r SearchPage \<Rightarrow> Request \<times> 'r SearchPage" where
  "executeSearch_call query' filters' page st =
     (let requestId' = latestRequestRef st + 1;
          st1 = st\<lparr>latestRequestRef := requestId', isLoading := True\<rparr>;
          next = resolve (searchState st1)
                   (updateStateIfChanged (searchState st1) query' filters')
      in (\<lparr>requestId = requestId', req_query = query', req_page = page,
           nextStateSnapshot = Some next\<rparr>,
          st1\<lparr>searchState := next\<rparr>))"

text \<open>
  The rest of \<open>executeSearch\<close>: the \<open>try\<close> body after the \<open>await\<close> when the response
  is \<open>Inr searchData\<close>, the \<open>catch\<close> block when the call failed (\<open>Inl ()\<close>), then the
  \<open>finally\<close> block. Nothing is thrown from it.
\<close>

definition executeSearch_resume ::
  "Request \<Rightarrow> unit + 'r SearchData \<Rightarrow> 'r SearchPage \<Rightarrow> 'r SearchPage" where
  "executeSearch_resume rq response st =
     (let st1 =
        (case response of
           Inr searchData \<Rightarrow>
             if requestId rq \<noteq> latestRequestRef st then st
             else st\<lparr>searchResults := results searchData,
                     totalResults := total' (resp_pagination searchData),
                     pagination :=
                       \<lparr>totalPages = totalPages (resp_pagination searchData),
                        hasNext = hasNext (resp_pagination searchData),
                        hasPrev = hasPrev (resp_pagination searchData)\<rparr>,
                     currentPage := req_page rq,
                     lastExecutedQuery := req_query rq\<rparr>
         | Inl _ \<Rightarrow>
             if requestId rq \<noteq> latestRequestRef st then st
             else st\<lparr>searchResults := [],
                     totalResults := 0,
                     pagination := \<lparr>totalPages = 0, hasNext = False, hasPrev = False\<rparr>\<rparr>)
      in if requestId rq = latestRequestRef st1
         then (let st2 = st1\<lparr>hasSearched := True, isLoading := False\<rparr>
               in case nextStateSnapshot rq of
                    Some snapshot \<Rightarrow> st2\<lparr>savedFilters := Some snapshot\<rparr>
                  | None \<Rightarrow> st2)
         else st1)"

subsection \<open>The event loop\<close>

text \<open>
  A run of the page is a sequence of events in any order: a call of \<open>executeSearch\<close>,
  or the arrival of the response to the request with a given token. The requests
  whose response has not arrived are kept next to the page state; a response to a
  request that is not in flight does not exist.
\<close>

datatype 'r event =
    Search jsstring LocalSearchFilters nat
  | Response nat "unit + 'r SearchData"

record 'r running =
  page_state :: "'r SearchPage"
  inflight :: "Request list"

fun step :: "'r event \<Rightarrow> 'r running \<Rightarrow> 'r running" where
  "step (Search query' filters' page) s =
     (case executeSearch_call query' filters' page (page_state s) of
        (rq, st) \<Rightarrow> \<lparr>page_state = st, inflight = inflight s @ [rq]\<rparr>)"
| "step (Response token response) s =
     (case find (\<lambda>rq. requestId rq = token) (inflight s) of
        None \<Rightarrow> s
      | Some rq \<Rightarrow>
          \<lparr>page_state = executeSearch_resume rq response (page_state s),
           inflight = filter (\<lambda>rq. requestId rq \<noteq> token) (inflight s)\<rparr>)"

fun run :: "'r event list \<Rightarrow> 'r running \<Rightarrow> 'r running" where
  "run [] s = s"
| "run (e # es) s = run es (step e s)"

text \<open>The tokens handed out to the calls of \<open>executeSearch\<close> in a run, in order.\<close>

fun issued :: "'r event list \<Rightarrow> 'r running \<Rightarrow> nat list" where
  "issued [] s = []"
| "issued (Search query' filters' page # es) s =
     requestId (fst (executeSearch_call query' filters' page (page_state s)))
       # issued es (step (Search query' filters' page) s)"
| "issued (Response token response # es) s = issued es (step (Response token response) s)"

fun isResponse :: "'r event \<Rightarrow> bool" where
  "isResponse (Response token response) = True"
| "isResponse (Search query' filters' page) = False"

section \<open>Sample data\<close>

text \<open>
  Concrete inputs for the instances below. For the mutation service: a meaning and
  an example with only their required fields set, a storage that holds the word
  \<open>casa\<close> with one meaning and one example, a word whose example has the legacy
  source \<open>X\<close>, a word whose second meaning has a number beyond 32 bits, and the
  lemma \<open>Arbol\<close> with an acute accent on its first letter (U+00C1). For the search
  page: a page with no criteria, and the requests \<open>A\<close> and \<open>B\<close> issued on it in this
  order, both still in flight.
\<close>

definition sense :: "int \<Rightarrow> jsstring \<Rightarrow> Example list option \<Rightarrow> Meaning" where
  "sense n txt exs =
     \<lparr>number = n, origin = None, meaning = txt, observation = None, remission = None,
      grammarCategory = None, dictionary = None, variant = None, markers = (\<lambda>_. None),
      examples = exs\<rparr>"

definition quotation :: "jsstring \<Rightarrow> jsstring option \<Rightarrow> jsstring option \<Rightarrow> Example" where
  "quotation v pub src =
     \<lparr>ex_value = v, ex_author = None, ex_year = None, ex_publication = pub,
      ex_format = None, ex_title = None, ex_date = None, ex_city = None,
      ex_editorial = None, ex_volume = None, ex_number = None, ex_page = None,
      ex_doi = None, ex_url = None, ex_source = src\<rparr>"

definition noOptions :: CreateWordOptions where
  "noOptions = \<lparr>opt_createdBy = None, opt_assignedTo = None, opt_letter = None,
                opt_status = None\<rparr>"

definition db_casa :: db where
  "db_casa =
     \<lparr>words_tbl =
        [\<lparr>w_id = 1, w_lemma = str ''casa'', w_root = None, w_letter = str ''c'',
          w_variant = None, w_status = str ''included'', w_createdBy = None,
          w_assignedTo = None, w_createdAt = 0, w_updatedAt = 0\<rparr>],
      meanings_tbl =
        [\<lparr>m_id = 1, m_wordId = 1,
          m_cols = meaningValues (sense 1 (str ''vivienda'') None),
          m_createdAt = 0, m_updatedAt = 0\<rparr>],
      examples_tbl =
        [\<lparr>e_id = 1, e_meaningId = 1,
          e_cols = cleanExample (quotation (str ''mi casa'') None None),
          e_createdAt = 0, e_updatedAt = 0\<rparr>],
      words_id_seq = 2, meanings_id_seq = 2, examples_id_seq = 2\<rparr>"




definition casaWord :: Word where
  "casaWord = \<lparr>word_lemma = str ''casa'', word_root = None, word_values = []\<rparr>"

definition noFilters :: LocalSearchFilters where
  "noFilters = \<lparr>categories = [], origins = [], letters = [], dictionaries = [],
                markerFilters = (\<lambda>_. [])\<rparr>"

definition emptyState :: SearchState where
  "emptyState = \<lparr>query = [], filters = noFilters, status = [], assignedTo = []\<rparr>"

definition freshPage :: "nat running" where
  "freshPage = \<lparr>page_state = initialPage emptyState False, inflight = []\<rparr>"

definition found :: "nat list \<Rightarrow> nat SearchData" where
  "found rs = \<lparr>results = rs,
               resp_pagination = \<lparr>totalPages = 1, hasNext = False, hasPrev = False,
                                  total' = length rs\<rparr>\<rparr>"

definition requestA :: Request where
  "requestA = fst (executeSearch_call (str ''A'') noFilters 1 (page_state freshPage))"

definition afterA :: "nat running" where
  "afterA = step (Search (str ''A'') noFilters 1) freshPage"

definition requestB :: Request where
  "requestB = fst (executeSearch_call (str ''B'') noFilters 1 (page_state afterA))"

definition afterAB :: "nat running" where
  "afterAB = step (Search (str ''B'') noFilters 1) afterA"

definition quotationX :: Example where
  "quotationX = quotation (str ''mi casa'') None (Some (str ''X''))"

section \<open>Properties of the mutation service\<close>

subsection \<open>Strings\<close>

lemma trim_empty_iff: "trim s = [] \<longleftrightarrow> list_all isWhiteSpace s"
proof
  assume "trim s = []"
  then have "\<forall>c\<in>set (dropWhile isWhiteSpace s). isWhiteSpace c"
    by (simp add: trim_def)
  then have "dropWhile isWhiteSpace s = []"
    by (metis hd_dropWhile hd_in_set)
  then show "list_all isWhiteSpace s"
    by (simp add: list_all_iff)
next
  assume "list_all isWhiteSpace s"
  then have "dropWhile isWhiteSpace s = []"
    by (simp add: list_all_iff)
  then show "trim s = []"
    unfolding trim_def by (simp del: dropWhile_eq_Nil_conv)
qed

subsection \<open>Inserting examples and meanings\<close>

lemma insert_examples_other [simp]:
  "meanings_tbl (insert_examples now d mid exs) = meanings_tbl d"
  "meanings_id_seq (insert_examples now d mid exs) = meanings_id_seq d"
  "words_tbl (insert_examples now d mid exs) = words_tbl d"
  "words_id_seq (insert_examples now d mid exs) = words_id_seq d"
  by (induction exs arbitrary: d) simp_all

lemma insert_examples_examplesOf:
  "examplesOf (insert_examples now d mid exs) k =
     examplesOf d k @ (if k = mid then exs else [])"
  by (induction exs arbitrary: d) (simp_all add: examplesOf_def)

lemma insert_examples_below:
  "list_all (\<lambda>e. e_meaningId e < n) (examples_tbl d) \<Longrightarrow> mid < n \<Longrightarrow>
   list_all (\<lambda>e. e_meaningId e < n) (examples_tbl (insert_examples now d mid exs))"
  by (induction exs arbitrary: d) simp_all

lemma insertMeaning_fail:
  "\<not> int4 (number def) \<Longrightarrow> insertMeaning now d wid def = (Inl DatabaseError, d)"
  by (simp add: insertMeaning_def insert_meanings_def meaningValues_def)

lemma insertMeaning_ok:
  "int4 (number def) \<Longrightarrow>
   insertMeaning now d wid def =
     (Inr (),
      insert_examples now
        (d\<lparr>meanings_tbl := meanings_tbl d @
             [\<lparr>m_id = meanings_id_seq d, m_wordId = wid, m_cols = meaningValues def,
               m_createdAt = now, m_updatedAt = now\<rparr>],
           meanings_id_seq := Suc (meanings_id_seq d)\<rparr>)
        (meanings_id_seq d) (normalizeAndCleanExamples (examples def)))"
  by (simp add: insertMeaning_def insert_meanings_def meaningValues_def Let_def)

lemma insertMeaning_words [simp]:
  "words_tbl (snd (insertMeaning now d wid def)) = words_tbl d"
  by (cases "int4 (number def)") (simp_all add: insertMeaning_ok insertMeaning_fail)

lemma examplesOf_fresh:
  "list_all (\<lambda>e. e_meaningId e < k) (examples_tbl d) \<Longrightarrow> examplesOf d k = []"
  by (auto simp: examplesOf_def list_all_iff filter_empty_conv)


lemma insertMeaning_wf:
  assumes "wf_db d"
  shows "wf_db (snd (insertMeaning now d wid def))"
proof (cases "int4 (number def)")
  case False
  with assms show ?thesis by (simp add: insertMeaning_fail)
next
  case True
  let ?n = "Suc (meanings_id_seq d)"
  let ?d1 = "d\<lparr>meanings_tbl := meanings_tbl d @
            [\<lparr>m_id = meanings_id_seq d, m_wordId = wid, m_cols = meaningValues def,
              m_createdAt = now, m_updatedAt = now\<rparr>],
          meanings_id_seq := Suc (meanings_id_seq d)\<rparr>"
  from assms have m: "list_all (\<lambda>m. m_id m < ?n) (meanings_tbl ?d1)"
    by (auto simp: wf_db_def list_all_iff)
  from assms have "list_all (\<lambda>e. e_meaningId e < ?n) (examples_tbl ?d1)"
    by (auto simp: wf_db_def list_all_iff)
  then have e: "list_all (\<lambda>e. e_meaningId e < ?n)
      (examples_tbl (insert_examples now ?d1 (meanings_id_seq d)
         (normalizeAndCleanExamples (examples def))))"
    by (rule insert_examples_below) simp
  show ?thesis
    unfolding wf_db_def insertMeaning_ok [OF True]
    using m e by simp
qed

subsection \<open>The loop over the submitted meanings\<close>


lemma insertMeanings_words [simp]:
  "words_tbl (snd (insertMeanings now d wid defs)) = words_tbl d"
proof (induction defs arbitrary: d)
  case Nil
  show ?case by simp
next
  case (Cons def defs)
  show ?case
  proof (cases "int4 (number def)")
    case True
    then show ?thesis using Cons.IH by (simp add: insertMeaning_ok)
  next
    case False
    then show ?thesis by (simp add: insertMeaning_fail)
  qed
qed

lemma insertMeanings_wf:
  "wf_db d \<Longrightarrow> wf_db (snd (insertMeanings now d wid defs))"
proof (induction defs arbitrary: d)
  case Nil
  then show ?case by simp
next
  case (Cons def defs)
  show ?case
  proof (cases "int4 (number def)")
    case True
    from Cons.prems have "wf_db (snd (insertMeaning now d wid def))"
      by (rule insertMeaning_wf)
    then have "wf_db (snd (insertMeanings now (snd (insertMeaning now d wid def)) wid defs))"
      by (rule Cons.IH)
    then show ?thesis using True by (simp add: insertMeaning_ok)
  next
    case False
    then show ?thesis using Cons.prems by (simp add: insertMeaning_fail)
  qed
qed


subsection \<open>Update and delete statements\<close>

lemma delete_meanings_wf: "wf_db d \<Longrightarrow> wf_db (delete_meanings d wid)"
  by (auto simp: wf_db_def delete_meanings_def Let_def list_all_iff)

lemma delete_meanings_meaningsOf [simp]: "meaningsOf (delete_meanings d wid) wid = []"
  by (simp add: meaningsOf_def delete_meanings_def Let_def)

lemma delete_meanings_words [simp]: "words_tbl (delete_meanings d wid) = words_tbl d"
  by (simp add: delete_meanings_def Let_def)

lemma update_words_wf: "wf_db d \<Longrightarrow> wf_db (update_words d wid f)"
  by (simp add: wf_db_def update_words_def)





lemma updateWordByLemma_wf:
  "wf_db d \<Longrightarrow> wf_db (snd (updateWordByLemma now d prevLemma updatedWord options))"
  by (cases "findFirst_words d prevLemma")
     (simp_all add: updateWordByLemma_def Let_def insertMeanings_wf delete_meanings_wf
        update_words_wf)


subsection \<open>createWord\<close>


lemma createWord_blank:
  "trim (word_lemma newWord) = [] \<Longrightarrow>
   createWord lower now d newWord options = (Inl (Error (str ''El lema es obligatorio'')), d)"
  by (simp add: createWord_def)

lemma createWord_exists:
  "trim (word_lemma newWord) \<noteq> [] \<Longrightarrow>
   findFirst_words d (trim (word_lemma newWord)) = Some existing \<Longrightarrow>
   createWord lower now d newWord options =
     (Inl (Error (str ''Ya existe una palabra con el lema '' @ [0x22]
                  @ trim (word_lemma newWord) @ [0x22])), d)"
  by (simp add: createWord_def Let_def)

lemma createWord_new:
  assumes "trim (word_lemma newWord) \<noteq> []"
    and "findFirst_words d (trim (word_lemma newWord)) = None"
  shows "createWord lower now d newWord options =
     (let r = insertMeanings now
                (snd (insert_words now d (trim (word_lemma newWord))
                   (orNull (Some (trim (case orNull (word_root newWord) of
                                          None \<Rightarrow> [] | Some r \<Rightarrow> r))))
                   (normalizedLetter lower (trim (word_lemma newWord)) (opt_letter options))
                   (Some (case opt_status options of
                            None \<Rightarrow> str ''included'' | Some s \<Rightarrow> s))
                   (opt_createdBy options) (opt_assignedTo options)))
                (words_id_seq d) (word_values newWord)
      in (case fst r of
            Inl e \<Rightarrow> Inl e
          | Inr _ \<Rightarrow> Inr \<lparr>r_wordId = words_id_seq d,
                          r_lemma = trim (word_lemma newWord),
                          r_letter = normalizedLetter lower (trim (word_lemma newWord))
                                       (opt_letter options)\<rparr>,
          snd r))"
  using assms
  by (simp add: createWord_def Let_def insert_words_def split: prod.splits sum.splits)

lemma createWord_words:
  assumes "trim (word_lemma newWord) \<noteq> []"
    and "findFirst_words d (trim (word_lemma newWord)) = None"
  shows "words_tbl (snd (createWord lower now d newWord options)) =
           words_tbl d @
             [\<lparr>w_id = words_id_seq d, w_lemma = trim (word_lemma newWord),
               w_root = orNull (Some (trim (case orNull (word_root newWord) of
                                              None \<Rightarrow> [] | Some r \<Rightarrow> r))),
               w_letter = normalizedLetter lower (trim (word_lemma newWord))
                            (opt_letter options),
               w_variant = None,
               w_status = (case opt_status options of
                             None \<Rightarrow> str ''included'' | Some s \<Rightarrow> s),
               w_createdBy = opt_createdBy options,
               w_assignedTo = opt_assignedTo options,
               w_createdAt = now, w_updatedAt = now\<rparr>]"
  by (simp add: createWord_new [OF assms] Let_def) (simp add: insert_words_def Let_def)


lemma insert_words_wf: "wf_db d \<Longrightarrow> wf_db (snd (insert_words now d l r c st cb at))"
  by (simp add: insert_words_def wf_db_def Let_def)

lemma createWord_wf: "wf_db d \<Longrightarrow> wf_db (snd (createWord lower now d newWord options))"
proof (cases "trim (word_lemma newWord) = []")
  case True
  assume "wf_db d"
  with True show ?thesis by (simp add: createWord_blank)
next
  case ne: False
  assume wf: "wf_db d"
  show ?thesis
  proof (cases "findFirst_words d (trim (word_lemma newWord))")
    case None
    show ?thesis
      by (simp add: createWord_new [OF ne None] Let_def insertMeanings_wf insert_words_wf wf)
  next
    case (Some existing)
    with ne wf show ?thesis by (simp add: createWord_exists)
  qed
qed

lemma wf_empty_db: "wf_db empty_db"
  by (simp add: wf_db_def empty_db_def)



subsection \<open>The sample storage\<close>

lemma wf_db_casa: "wf_db db_casa"
  by (simp add: wf_db_def db_casa_def)



section \<open>Updating and creating words\<close>







lemma trim_casa: "trim (str ''casa'') = str ''casa''"
  by (simp add: trim_def str_def isWhiteSpace_def)




text \<open>
  C5. A \<open>createWord\<close> call whose lemma is empty or consists of whitespace only fails
  with the validation error and leaves the storage as it was: no row is written.
\<close>

theorem createWord_blank_lemma:
  assumes "list_all isWhiteSpace (word_lemma newWord)"
  shows "createWord lower now d newWord options =
           (Inl (Error (str ''El lema es obligatorio'')), d)"
  using assms by (simp add: createWord_blank trim_empty_iff)

theorem createWord_blank_lemma_witness:
  "list_all isWhiteSpace (word_lemma (casaWord\<lparr>word_lemma := [0x20, 0x09, 0xA0]\<rparr>)) \<and>
   createWord toLowerCase 7 db_casa (casaWord\<lparr>word_lemma := [0x20, 0x09, 0xA0]\<rparr>) noOptions =
     (Inl (Error (str ''El lema es obligatorio'')), db_casa)"
proof -
  have ws: "list_all isWhiteSpace (word_lemma (casaWord\<lparr>word_lemma := [0x20, 0x09, 0xA0]\<rparr>))"
    by (simp add: isWhiteSpace_def)
  from createWord_blank_lemma [OF ws] show ?thesis
    using ws by simp
qed



text \<open>
  C10. When \<open>createWord\<close> inserts the word row (the lemma is not blank and not taken),
  the row is appended with status \<open>'included'\<close> if no status option is given, which
  is not the column default \<open>'draft'\<close>, and with the status option as it is
  otherwise.
\<close>

theorem createWord_status:
  assumes "trim (word_lemma newWord) \<noteq> []"
    and "findFirst_words d (trim (word_lemma newWord)) = None"
  shows "butlast (words_tbl (snd (createWord lower now d newWord options))) = words_tbl d \<and>
         w_id (last (words_tbl (snd (createWord lower now d newWord options)))) =
           words_id_seq d \<and>
         w_status (last (words_tbl (snd (createWord lower now d newWord options)))) =
           (case opt_status options of None \<Rightarrow> str ''included'' | Some s \<Rightarrow> s) \<and>
         str ''included'' \<noteq> str ''draft''"
  by (simp add: createWord_words [OF assms]) (simp add: str_def)

theorem createWord_status_witness:
  "trim (word_lemma casaWord) \<noteq> [] \<and>
   findFirst_words empty_db (trim (word_lemma casaWord)) = None \<and>
   w_status (last (words_tbl (snd (createWord toLowerCase 7 empty_db casaWord noOptions)))) =
     str ''included'' \<and>
   w_status (last (words_tbl (snd (createWord toLowerCase 7 empty_db casaWord
       (noOptions\<lparr>opt_status := Some (str ''draft'')\<rparr>))))) = str ''draft''"
proof -
  have ne: "trim (word_lemma casaWord) \<noteq> []"
    by (simp add: casaWord_def trim_casa) (simp add: str_def)
  have nf: "findFirst_words empty_db (trim (word_lemma casaWord)) = None"
    by (simp add: findFirst_words_def empty_db_def)
  from createWord_status [OF ne nf, of toLowerCase 7 noOptions]
       createWord_status [OF ne nf, of toLowerCase 7 "noOptions\<lparr>opt_status := Some (str ''draft'')\<rparr>"]
  show ?thesis
    using ne nf by (simp add: noOptions_def)
qed

section \<open>Cleaning examples\<close>

text \<open>
  C7. \<open>cleanExample\<close> keeps the quotation text, keeps a publication that is present,
  takes the legacy source as publication when there is no publication, and turns
  every other falsy field into null; \<open>normalizeAndCleanExamples\<close> does so for each
  submitted example, and \<open>insertMeaning\<close> stores the result with the new meaning.
\<close>

theorem cleanExample_legacy_source:
  "(falsy (ex_publication ex) \<and> \<not> falsy (ex_source ex) \<longrightarrow>
      ex_publication (cleanExample ex) = ex_source ex) \<and>
   (\<not> falsy (ex_publication ex) \<longrightarrow> ex_publication (cleanExample ex) = ex_publication ex) \<and>
   (falsy (ex_publication ex) \<and> falsy (ex_source ex) \<longrightarrow>
      ex_publication (cleanExample ex) = None) \<and>
   ex_value (cleanExample ex) = ex_value ex \<and>
   ex_author (cleanExample ex) = (if falsy (ex_author ex) then None else ex_author ex) \<and>
   ex_year (cleanExample ex) = (if falsy (ex_year ex) then None else ex_year ex) \<and>
   ex_format (cleanExample ex) = (if falsy (ex_format ex) then None else ex_format ex) \<and>
   ex_title (cleanExample ex) = (if falsy (ex_title ex) then None else ex_title ex) \<and>
   ex_date (cleanExample ex) = (if falsy (ex_date ex) then None else ex_date ex) \<and>
   ex_city (cleanExample ex) = (if falsy (ex_city ex) then None else ex_city ex) \<and>
   ex_editorial (cleanExample ex) =
     (if falsy (ex_editorial ex) then None else ex_editorial ex) \<and>
   ex_volume (cleanExample ex) = (if falsy (ex_volume ex) then None else ex_volume ex) \<and>
   ex_number (cleanExample ex) = (if falsy (ex_number ex) then None else ex_number ex) \<and>
   ex_page (cleanExample ex) = (if falsy (ex_page ex) then None else ex_page ex) \<and>
   ex_doi (cleanExample ex) = (if falsy (ex_doi ex) then None else ex_doi ex) \<and>
   ex_url (cleanExample ex) = (if falsy (ex_url ex) then None else ex_url ex) \<and>
   normalizeAndCleanExamples exs =
     map cleanExample (case exs of None \<Rightarrow> [] | Some xs \<Rightarrow> xs) \<and>
   (wf_db d \<and> int4 (number def) \<longrightarrow>
      examplesOf (snd (insertMeaning now d wordId def)) (meanings_id_seq d) =
        map cleanExample (case examples def of None \<Rightarrow> [] | Some xs \<Rightarrow> xs))"
proof -
  have n: "normalizeAndCleanExamples exs =
             map cleanExample (case exs of None \<Rightarrow> [] | Some xs \<Rightarrow> xs)" for exs
    by (simp add: normalizeAndCleanExamples_def split: option.splits)
  have "examplesOf (snd (insertMeaning now d wordId def)) (meanings_id_seq d) =
          map cleanExample (case examples def of None \<Rightarrow> [] | Some xs \<Rightarrow> xs)"
    if "wf_db d" "int4 (number def)"
  proof -
    from that(1) have "examplesOf d (meanings_id_seq d) = []"
      by (simp add: wf_db_def examplesOf_fresh)
    then show ?thesis
      by (simp add: insertMeaning_ok [OF that(2)] insert_examples_examplesOf n)
         (simp add: examplesOf_def)
  qed
  then show ?thesis
    by (intro conjI impI n) (simp_all add: cleanExample_def orNull_def)
qed

theorem cleanExample_legacy_source_witness:
  "falsy (ex_publication quotationX) \<and> \<not> falsy (ex_source quotationX) \<and>
   ex_publication (cleanExample quotationX) = Some (str ''X'') \<and>
   wf_db db_casa \<and> int4 (number (sense 2 (str ''hogar'') (Some [quotationX]))) \<and>
   examplesOf (snd (insertMeaning 7 db_casa 1 (sense 2 (str ''hogar'') (Some [quotationX]))))
      (meanings_id_seq db_casa) = [cleanExample quotationX]"
proof -
  note t = cleanExample_legacy_source [of quotationX None db_casa
             "sense 2 (str ''hogar'') (Some [quotationX])" 7 1]
  have a: "falsy (ex_publication quotationX) \<and> \<not> falsy (ex_source quotationX)"
    by (simp add: quotationX_def quotation_def falsy_def str_def)
  have i: "int4 (number (sense 2 (str ''hogar'') (Some [quotationX])))"
    by (simp add: sense_def int4_def)
  have "falsy (ex_publication quotationX) \<and> \<not> falsy (ex_source quotationX) \<longrightarrow>
          ex_publication (cleanExample quotationX) = ex_source quotationX"
    using t by (elim conjE) assumption
  with a have p: "ex_publication (cleanExample quotationX) = Some (str ''X'')"
    by (simp add: quotationX_def quotation_def)
  have "wf_db db_casa \<and> int4 (number (sense 2 (str ''hogar'') (Some [quotationX]))) \<longrightarrow>
      examplesOf (snd (insertMeaning 7 db_casa 1 (sense 2 (str ''hogar'') (Some [quotationX]))))
         (meanings_id_seq db_casa) =
        map cleanExample (case examples (sense 2 (str ''hogar'') (Some [quotationX])) of
                            None \<Rightarrow> [] | Some xs \<Rightarrow> xs)"
    using t by (elim conjE) assumption
  with i wf_db_casa have
    "examplesOf (snd (insertMeaning 7 db_casa 1 (sense 2 (str ''hogar'') (Some [quotationX]))))
         (meanings_id_seq db_casa) = [cleanExample quotationX]"
    by (simp add: sense_def)
  with a i p wf_db_casa show ?thesis by simp
qed

section \<open>Properties of the search page\<close>

subsection \<open>State transitions\<close>

lemma filtersChanged_iff:
  "filtersChanged a b \<longleftrightarrow>
     \<not> (categories a = categories b \<and> origins a = origins b \<and> letters a = letters b \<and>
        dictionaries a = dictionaries b \<and>
        (\<forall>key. markerFilters a key = markerFilters b key))"
proof -
  have "set MEANING_MARKER_KEYS = UNIV"
  proof -
    have "key \<in> set MEANING_MARKER_KEYS" for key
      by (cases key) (simp_all add: MEANING_MARKER_KEYS_def)
    then show ?thesis by auto
  qed
  then show ?thesis
    by (auto simp: filtersChanged_def list_ex_iff)
qed

text \<open>
  C9. A transition whose query text equals the current query and whose filters hold
  the same values in every filter category returns the previous state object itself,
  from \<open>updateStateIfChanged\<close> and from the updater of \<open>handleSearchStateChange\<close> in
  both modes: the state is not replaced.
\<close>

theorem updateStateIfChanged_noop:
  assumes "query' = query prev"
    and "categories filters' = categories (filters prev)"
    and "origins filters' = origins (filters prev)"
    and "letters filters' = letters (filters prev)"
    and "dictionaries filters' = dictionaries (filters prev)"
    and "\<forall>key. markerFilters filters' key = markerFilters (filters prev) key"
  shows "updateStateIfChanged prev query' filters' = Prev \<and>
         handleSearchStateChange editorMode query' filters' prev = Prev \<and>
         resolve prev (updateStateIfChanged prev query' filters') = prev"
proof -
  from assms have "\<not> filtersChanged (filters prev) filters'"
    by (simp add: filtersChanged_iff)
  with assms(1) show ?thesis
    by (simp add: updateStateIfChanged_def handleSearchStateChange_def resolve_def)
qed

theorem updateStateIfChanged_noop_witness:
  "[] = query emptyState \<and>
   categories (cloneFilters noFilters) = categories (filters emptyState) \<and>
   origins (cloneFilters noFilters) = origins (filters emptyState) \<and>
   letters (cloneFilters noFilters) = letters (filters emptyState) \<and>
   dictionaries (cloneFilters noFilters) = dictionaries (filters emptyState) \<and>
   updateStateIfChanged emptyState [] (cloneFilters noFilters) = Prev \<and>
   handleSearchStateChange True [] (cloneFilters noFilters) emptyState = Prev \<and>
   handleSearchStateChange False [] (cloneFilters noFilters) emptyState = Prev"
  using updateStateIfChanged_noop [of "[]" emptyState "cloneFilters noFilters" True]
        updateStateIfChanged_noop [of "[]" emptyState "cloneFilters noFilters" False]
  by (simp add: emptyState_def noFilters_def cloneFilters_def)

subsection \<open>Request tokens\<close>

lemma executeSearch_call_token:
  "requestId (fst (executeSearch_call query' filters' page st)) = latestRequestRef st + 1"
  "latestRequestRef (snd (executeSearch_call query' filters' page st)) =
     latestRequestRef st + 1"
  by (simp_all add: executeSearch_call_def Let_def)

lemma executeSearch_resume_token [simp]:
  "latestRequestRef (executeSearch_resume rq response st) = latestRequestRef st"
  by (simp add: executeSearch_resume_def Let_def split: sum.splits option.splits)

lemma executeSearch_resume_stale:
  "requestId rq \<noteq> latestRequestRef st \<Longrightarrow> executeSearch_resume rq response st = st"
  by (simp add: executeSearch_resume_def Let_def split: sum.splits)

lemma step_Search_token:
  "latestRequestRef (page_state (step (Search query' filters' page) s)) =
     latestRequestRef (page_state s) + 1"
  by (simp add: executeSearch_call_def Let_def)

lemma step_Response_token:
  "latestRequestRef (page_state (step (Response token response) s)) =
     latestRequestRef (page_state s)"
  by (simp split: option.splits)

lemma issued_above:
  "list_all (\<lambda>t. latestRequestRef (page_state s) < t) (issued es s)"
proof (induction es arbitrary: s)
  case Nil
  show ?case by simp
next
  case (Cons e es)
  show ?case
  proof (cases e)
    case (Search query' filters' page)
    have "list_all (\<lambda>t. latestRequestRef (page_state (step e s)) < t) (issued es (step e s))"
      by (rule Cons.IH)
    then have "list_all (\<lambda>t. latestRequestRef (page_state s) < t) (issued es (step e s))"
      unfolding Search step_Search_token list_all_iff by (meson Suc_lessD Suc_eq_plus1 add_lessD1)
    then show ?thesis
      unfolding Search by (simp add: executeSearch_call_token)
  next
    case (Response token response)
    have "list_all (\<lambda>t. latestRequestRef (page_state (step e s)) < t) (issued es (step e s))"
      by (rule Cons.IH)
    then show ?thesis
      unfolding Response step_Response_token by simp
  qed
qed

lemma issued_increasing: "sorted_wrt (<) (issued es s)"
proof (induction es arbitrary: s)
  case Nil
  show ?case by simp
next
  case (Cons e es)
  show ?case
  proof (cases e)
    case (Search query' filters' page)
    have "list_all (\<lambda>t. latestRequestRef (page_state (step e s)) < t) (issued es (step e s))"
      by (rule issued_above)
    then have "\<forall>t\<in>set (issued es (step e s)). latestRequestRef (page_state s) + 1 < t"
      unfolding Search step_Search_token by (simp add: list_all_iff)
    moreover have "sorted_wrt (<) (issued es (step e s))"
      by (rule Cons.IH)
    ultimately show ?thesis
      unfolding Search by (simp add: executeSearch_call_token)
  next
    case (Response token response)
    have "sorted_wrt (<) (issued es (step e s))"
      by (rule Cons.IH)
    then show ?thesis
      unfolding Response by simp
  qed
qed

lemma find_requestId:
  "find (\<lambda>rq. requestId rq = token) rqs = Some rq \<Longrightarrow> requestId rq = token \<and> rq \<in> set rqs"
  by (induction rqs) (auto split: if_splits)

lemma step_Response_None:
  "find (\<lambda>rq. requestId rq = token) (inflight s) = None \<Longrightarrow>
   step (Response token response) s = s"
  by (simp only: step.simps option.case)

lemma step_Response_Some:
  "find (\<lambda>rq. requestId rq = token) (inflight s) = Some rq \<Longrightarrow>
   step (Response token response) s =
     \<lparr>page_state = executeSearch_resume rq response (page_state s),
      inflight = filter (\<lambda>rq. requestId rq \<noteq> token) (inflight s)\<rparr>"
  by (simp only: step.simps option.case)

lemma responses_after_latest:
  assumes "list_all isResponse post"
    and "\<forall>rq\<in>set (inflight s). requestId rq \<noteq> latestRequestRef (page_state s)"
  shows "page_state (run post s) = page_state s"
  using assms
proof (induction post arbitrary: s)
  case Nil
  show ?case by simp
next
  case (Cons e post)
  from Cons.prems(1) obtain token response where e: "e = Response token response"
    by (cases e) simp_all
  have st: "page_state (step e s) = page_state s \<and> set (inflight (step e s)) \<subseteq> set (inflight s)"
  proof (cases "find (\<lambda>rq. requestId rq = token) (inflight s)")
    case None
    show ?thesis unfolding e step_Response_None [OF None] by simp
  next
    case (Some rq)
    have "requestId rq = token" "rq \<in> set (inflight s)"
      using find_requestId [OF Some] by blast+
    with Cons.prems(2) have "requestId rq \<noteq> latestRequestRef (page_state s)"
      by blast
    then have "executeSearch_resume rq response (page_state s) = page_state s"
      by (rule executeSearch_resume_stale)
    then show ?thesis unfolding e step_Response_Some [OF Some] by simp
  qed
  have "page_state (run post (step e s)) = page_state (step e s)"
  proof (rule Cons.IH)
    from Cons.prems(1) show "list_all isResponse post" by simp
    from Cons.prems(2) st
    show "\<forall>rq\<in>set (inflight (step e s)).
            requestId rq \<noteq> latestRequestRef (page_state (step e s))"
      by (simp add: subset_iff)
  qed
  with st show ?case by simp
qed

lemma latest_response_wins:
  assumes "find (\<lambda>rq. requestId rq = latestRequestRef (page_state s)) (inflight s) =
             Some latest"
    and "list_all isResponse post"
  shows "page_state (run (Response (latestRequestRef (page_state s)) response # post) s) =
           executeSearch_resume latest response (page_state s)"
proof -
  let ?s1 = "step (Response (latestRequestRef (page_state s)) response) s"
  have p: "page_state ?s1 = executeSearch_resume latest response (page_state s)"
    by (simp add: assms(1))
  have "\<forall>rq\<in>set (inflight ?s1). requestId rq \<noteq> latestRequestRef (page_state ?s1)"
    by (simp add: assms(1))
  with assms(2) have "page_state (run post ?s1) = page_state ?s1"
    by (rule responses_after_latest)
  with p show ?thesis by simp
qed

lemma executeSearch_resume_success:
  assumes "requestId rq = latestRequestRef st"
  shows "searchResults (executeSearch_resume rq (Inr searchData) st) = results searchData"
    and "totalResults (executeSearch_resume rq (Inr searchData) st) =
           total' (resp_pagination searchData)"
    and "pagination (executeSearch_resume rq (Inr searchData) st) =
           \<lparr>totalPages = totalPages (resp_pagination searchData),
            hasNext = hasNext (resp_pagination searchData),
            hasPrev = hasPrev (resp_pagination searchData)\<rparr>"
    and "currentPage (executeSearch_resume rq (Inr searchData) st) = req_page rq"
    and "lastExecutedQuery (executeSearch_resume rq (Inr searchData) st) = req_query rq"
  using assms
  by (simp_all add: executeSearch_resume_def Let_def split: option.splits)

lemma executeSearch_resume_failure:
  assumes "requestId rq = latestRequestRef st"
  shows "executeSearch_resume rq (Inl ()) st =
           st\<lparr>searchResults := [], totalResults := 0,
              pagination := \<lparr>totalPages = 0, hasNext = False, hasPrev = False\<rparr>,
              hasSearched := True, isLoading := False,
              savedFilters := (case nextStateSnapshot rq of
                                 Some snapshot \<Rightarrow> Some snapshot
                               | None \<Rightarrow> savedFilters st)\<rparr>"
  using assms
  by (simp add: executeSearch_resume_def Let_def split: option.splits)


lemma step_Search_eq:
  "step (Search query' filters' page) s =
     \<lparr>page_state = snd (executeSearch_call query' filters' page (page_state s)),
      inflight = inflight s @ [fst (executeSearch_call query' filters' page (page_state s))]\<rparr>"
  by (simp add: case_prod_beta)

lemma afterAB_tokens:
  "latestRequestRef (page_state freshPage) = 0"
  "latestRequestRef (page_state afterA) = 1"
  "latestRequestRef (page_state afterAB) = 2"
  "requestId requestA = 1"
  "requestId requestB = 2"
  "inflight afterAB = [requestA, requestB]"
proof -
  show l0: "latestRequestRef (page_state freshPage) = 0"
    by (simp add: freshPage_def initialPage_def)
  show l1: "latestRequestRef (page_state afterA) = 1"
    unfolding afterA_def step_Search_token l0 by simp
  show "latestRequestRef (page_state afterAB) = 2"
    unfolding afterAB_def step_Search_token l1 by simp
  show "requestId requestA = 1"
    unfolding requestA_def executeSearch_call_token l0 by simp
  show "requestId requestB = 2"
    unfolding requestB_def executeSearch_call_token l1 by simp
  have "inflight freshPage = []"
    by (simp add: freshPage_def)
  then show "inflight afterAB = [requestA, requestB]"
    unfolding afterAB_def afterA_def requestA_def requestB_def step_Search_eq by simp
qed

lemma find_requestB:
  "find (\<lambda>rq. requestId rq = latestRequestRef (page_state afterAB)) (inflight afterAB) =
     Some requestB"
  by (simp add: afterAB_tokens)

lemma run_overlapping:
  "run [Search (str ''A'') noFilters 1, Search (str ''B'') noFilters 1,
        Response 2 responseB, Response 1 responseA] freshPage =
   run [Response (latestRequestRef (page_state afterAB)) responseB, Response 1 responseA]
     afterAB"
  unfolding afterAB_tokens by (simp only: run.simps afterAB_def afterA_def)

text \<open>
  C3. The token of a request is larger than the token of every request issued before
  it. A response whose token is not the latest one issued changes nothing of the
  page state. Once the response to the latest request has been handled, the page
  state stays what that response made it, whatever other responses arrive after
  it: the displayed results, total, pagination, page and query are those of the
  latest request.
\<close>

theorem latest_request_wins:
  "sorted_wrt (<) (issued es s) \<and>
   list_all (\<lambda>t. latestRequestRef (page_state s) < t) (issued es s) \<and>
   (requestId rq \<noteq> latestRequestRef st \<longrightarrow> executeSearch_resume rq response st = st) \<and>
   (find (\<lambda>rq. requestId rq = latestRequestRef (page_state s)) (inflight s) = Some latest \<and>
    list_all isResponse post \<longrightarrow>
      page_state (run (Response (latestRequestRef (page_state s)) response # post) s) =
        executeSearch_resume latest response (page_state s)) \<and>
   (requestId rq = latestRequestRef st \<longrightarrow>
      searchResults (executeSearch_resume rq (Inr searchData) st) = results searchData \<and>
      totalResults (executeSearch_resume rq (Inr searchData) st) =
        total' (resp_pagination searchData) \<and>
      pagination (executeSearch_resume rq (Inr searchData) st) =
        \<lparr>totalPages = totalPages (resp_pagination searchData),
         hasNext = hasNext (resp_pagination searchData),
         hasPrev = hasPrev (resp_pagination searchData)\<rparr> \<and>
      currentPage (executeSearch_resume rq (Inr searchData) st) = req_page rq \<and>
      lastExecutedQuery (executeSearch_resume rq (Inr searchData) st) = req_query rq)"
proof (intro conjI impI)
  show "sorted_wrt (<) (issued es s)"
    by (rule issued_increasing)
  show "list_all (\<lambda>t. latestRequestRef (page_state s) < t) (issued es s)"
    by (rule issued_above)
next
  assume "requestId rq \<noteq> latestRequestRef st"
  then show "executeSearch_resume rq response st = st"
    by (rule executeSearch_resume_stale)
next
  assume "find (\<lambda>rq. requestId rq = latestRequestRef (page_state s)) (inflight s) = Some latest \<and>
    list_all isResponse post"
  then show "page_state (run (Response (latestRequestRef (page_state s)) response # post) s) =
        executeSearch_resume latest response (page_state s)"
    by (simp only: latest_response_wins)
next
  assume l: "requestId rq = latestRequestRef st"
  show "searchResults (executeSearch_resume rq (Inr searchData) st) = results searchData"
    by (rule executeSearch_resume_success [OF l])
  show "totalResults (executeSearch_resume rq (Inr searchData) st) =
        total' (resp_pagination searchData)"
    by (rule executeSearch_resume_success [OF l])
  show "pagination (executeSearch_resume rq (Inr searchData) st) =
        \<lparr>totalPages = totalPages (resp_pagination searchData),
         hasNext = hasNext (resp_pagination searchData),
         hasPrev = hasPrev (resp_pagination searchData)\<rparr>"
    by (rule executeSearch_resume_success [OF l])
  show "currentPage (executeSearch_resume rq (Inr searchData) st) = req_page rq"
    by (rule executeSearch_resume_success [OF l])
  show "lastExecutedQuery (executeSearch_resume rq (Inr searchData) st) = req_query rq"
    by (rule executeSearch_resume_success [OF l])
qed

theorem latest_request_wins_witness:
  "issued [Search (str ''A'') noFilters 1, Search (str ''B'') noFilters 1,
           Response 2 (Inr (found [20])), Response 1 (Inr (found [10]))] freshPage = [1, 2] \<and>
   searchResults (page_state
     (run [Search (str ''A'') noFilters 1, Search (str ''B'') noFilters 1,
           Response 2 (Inr (found [20])), Response 1 (Inr (found [10]))] freshPage)) = [20] \<and>
   totalResults (page_state
     (run [Search (str ''A'') noFilters 1, Search (str ''B'') noFilters 1,
           Response 2 (Inr (found [20])), Response 1 (Inr (found [10]))] freshPage)) = 1 \<and>
   lastExecutedQuery (page_state
     (run [Search (str ''A'') noFilters 1, Search (str ''B'') noFilters 1,
           Response 2 (Inr (found [20])), Response 1 (Inr (found [10]))] freshPage)) = str ''B''"
proof -
  note t = latest_request_wins
    [where s = afterAB and latest = requestB and response = "Inr (found [20])"
       and post = "[Response 1 (Inr (found [10]))]" and rq = requestB
       and st = "page_state afterAB" and searchData = "found [20]" and es = "[]"]
  have post: "list_all isResponse [Response 1 (Inr (found [10]))]"
    by simp
  have
    "find (\<lambda>rq. requestId rq = latestRequestRef (page_state afterAB)) (inflight afterAB) =
       Some requestB \<and> list_all isResponse [Response 1 (Inr (found [10]))] \<longrightarrow>
     page_state (run (Response (latestRequestRef (page_state afterAB)) (Inr (found [20]))
                      # [Response 1 (Inr (found [10]))]) afterAB) =
       executeSearch_resume requestB (Inr (found [20])) (page_state afterAB)"
    using t by (elim conjE) assumption
  with find_requestB post have p:
    "page_state (run [Search (str ''A'') noFilters 1, Search (str ''B'') noFilters 1,
           Response 2 (Inr (found [20])), Response 1 (Inr (found [10]))] freshPage) =
       executeSearch_resume requestB (Inr (found [20])) (page_state afterAB)"
    by (simp only: run_overlapping)
  have q: "req_query requestB = str ''B''"
    by (simp add: requestB_def executeSearch_call_def Let_def)
  have l: "requestId requestB = latestRequestRef (page_state afterAB)"
    by (simp add: afterAB_tokens)
  have i: "issued [Search (str ''A'') noFilters 1, Search (str ''B'') noFilters 1,
           Response 2 (Inr (found [20])), Response 1 (Inr (found [10]))] freshPage = [1, 2]"
    using afterAB_tokens(4,5)
    by (simp add: requestA_def requestB_def afterA_def)
  show ?thesis
    unfolding p using i q executeSearch_resume_success [OF l, of "found [20]"]
    by (simp add: found_def)
qed

text \<open>
  C8 (as amended). A failed search request throws nothing. When it is still the
  latest request issued, the page shows an empty result list, a total of zero and
  empty pagination, is marked as searched and not loading, and the filter snapshot
  of the request is saved as after a successful search. When a later request has
  been issued, the failure changes nothing of the page state.
\<close>

theorem failed_search_shows_no_results:
  "(requestId rq = latestRequestRef st \<longrightarrow>
      executeSearch_resume rq (Inl ()) st =
        st\<lparr>searchResults := [], totalResults := 0,
           pagination := \<lparr>totalPages = 0, hasNext = False, hasPrev = False\<rparr>,
           hasSearched := True, isLoading := False,
           savedFilters := (case nextStateSnapshot rq of
                              Some snapshot \<Rightarrow> Some snapshot
                            | None \<Rightarrow> savedFilters st)\<rparr>) \<and>
   (requestId rq \<noteq> latestRequestRef st \<longrightarrow> executeSearch_resume rq (Inl ()) st = st)"
  by (simp add: executeSearch_resume_failure executeSearch_resume_stale)

theorem failed_search_shows_no_results_witness:
  "requestId requestB = latestRequestRef (page_state afterAB) \<and>
   searchResults (executeSearch_resume requestB (Inl ()) (page_state afterAB)) = [] \<and>
   totalResults (executeSearch_resume requestB (Inl ()) (page_state afterAB)) = 0 \<and>
   pagination (executeSearch_resume requestB (Inl ()) (page_state afterAB)) =
     \<lparr>totalPages = 0, hasNext = False, hasPrev = False\<rparr> \<and>
   requestId requestA \<noteq> latestRequestRef (page_state afterAB) \<and>
   executeSearch_resume requestA (Inl ()) (page_state afterAB) = page_state afterAB"
proof -
  have b: "requestId requestB = latestRequestRef (page_state afterAB)"
    by (simp add: afterAB_tokens)
  have a: "requestId requestA \<noteq> latestRequestRef (page_state afterAB)"
    by (simp add: afterAB_tokens)
  from failed_search_shows_no_results [of requestB "page_state afterAB"]
       failed_search_shows_no_results [of requestA "page_state afterAB"]
  show ?thesis
    using a b by simp
qed

text \<open>
  A failed request that is no longer the latest does not empty the display: with
  \<open>A\<close> and \<open>B\<close> issued in this order, \<open>B\<close> answered with one result and \<open>A\<close> failing
  afterwards, the page still shows the result of \<open>B\<close>.
\<close>

theorem failed_search_stale_counterexample:
  "searchResults (page_state
     (run [Search (str ''A'') noFilters 1, Search (str ''B'') noFilters 1,
           Response 2 (Inr (found [20])), Response 1 (Inl ())] freshPage)) = [20] \<and>
   totalResults (page_state
     (run [Search (str ''A'') noFilters 1, Search (str ''B'') noFilters 1,
           Response 2 (Inr (found [20])), Response 1 (Inl ())] freshPage)) = 1"
proof -
  have post: "list_all isResponse [Response 1 (Inl ())]"
    by simp
  have p:
    "page_state (run [Search (str ''A'') noFilters 1, Search (str ''B'') noFilters 1,
           Response 2 (Inr (found [20])), Response 1 (Inl ())] freshPage) =
       executeSearch_resume requestB (Inr (found [20])) (page_state afterAB)"
    unfolding run_overlapping
    by (rule latest_response_wins [OF find_requestB post])
  have l: "requestId requestB = latestRequestRef (page_state afterAB)"
    by (simp add: afterAB_tokens)
  show ?thesis
    unfolding p using executeSearch_resume_success [OF l, of "found [20]"]
    by (simp add: found_def)
qed

end
